theory Spec2Isabelle
  imports Main "HOL-Library.Word"
begin

section \<open>Platform types and constants\<close>

text \<open>
  pthread.h is a compatibility header for Windows: every operation is a few lines around
  calls of the native API. HANDLE, LPVOID and \<^verbatim>\<open>void *\<close> are pointer-sized values,
  modelled as \<open>'p word\<close> (32 bits on x86, 64 bits on x64); DWORD is 32 bits on both.
  The error numbers and wait codes come from the platform headers.
\<close>

type_synonym dword = "32 word"

definition ENOMEM :: int where "ENOMEM = 12"
definition EINVAL :: int where "EINVAL = 22"
definition EDEADLK :: int where "EDEADLK = 36"

definition WAIT_OBJECT_0 :: dword where "WAIT_OBJECT_0 = 0"
definition WAIT_ABANDONED :: dword where "WAIT_ABANDONED = 0x80"
definition WAIT_TIMEOUT :: dword where "WAIT_TIMEOUT = 0x102"
definition WAIT_FAILED :: dword where "WAIT_FAILED = 0xFFFFFFFF"
definition INFINITE :: dword where "INFINITE = 0xFFFFFFFF"
definition STILL_ACTIVE :: dword where "STILL_ACTIVE = 259"

text \<open>The value GetCurrentThread returns: a pseudo handle, the same constant in every
  thread, that the kernel reads as "the calling thread".\<close>

definition CURRENT_THREAD :: "'p::len word" where "CURRENT_THREAD = - 2"

section \<open>The state of the process\<close>

text \<open>\<^verbatim>\<open>struct pthread_create_trampoline_info\<close>. A start routine is a function from
  its argument to its result.\<close>

record 'a pthread_create_trampoline_info =
  start_routine :: "'a \<Rightarrow> 'a"
  arg :: "'a"
  event :: "'a"

text \<open>
  A thread is identified by its index in the thread table. The threads that CreateThread
  starts all have the entry point \<open>pthread_create_trampoline\<close>:
  \<^item> \<open>Ready p\<close>: created with the parameter \<open>p\<close>, the trampoline has not begun;
  \<^item> \<open>InRoutine info\<close>: the trampoline has copied \<open>info\<close> and signalled the event, and
    the thread is running its start routine;
  \<^item> \<open>Exited c\<close>: the trampoline has returned \<open>c\<close>, the thread's exit code;
  \<^item> \<open>Faulted\<close>: the trampoline read a stack frame which no longer exists (undefined
    behaviour in C).

  \<open>Running\<close> is a thread whose code is not the trampoline's: the caller, as long as it
  is inside an operation of the header, and the program's first thread.
\<close>

datatype 'a tstate =
    Running
  | Ready 'a
  | InRoutine "'a pthread_create_trampoline_info"
  | Exited dword
  | Faulted

text \<open>Kernel objects behind handles: an event (manual-reset flag, signalled flag), a
  mutex (owner and recursion count, or free) and a thread.\<close>

datatype kobj = Event bool bool | Mutex "(nat \<times> nat) option" | Thread nat

text \<open>The calls the header makes, recorded with the calling thread. \<open>CallStartRoutine a r\<close>
  records that the trampoline invoked the start routine on \<open>a\<close> and it returned \<open>r\<close>.\<close>

datatype 'a call =
    CallGetCurrentThread
  | CallCreateEventA bool bool
  | CallCreateThread 'a
  | CallWaitForSingleObject 'a dword
  | CallCloseHandle 'a
  | CallSetEvent 'a
  | CallGetExitCodeThread 'a
  | CallCreateMutexA bool
  | CallReleaseMutex 'a
  | CallStartRoutine 'a 'a

text \<open>
  \<^item> \<open>cur\<close>: the calling thread; \<open>threads\<close>: the thread table;
  \<^item> \<open>objects\<close>: the handle table;
  \<^item> \<open>pool\<close>: the handle values the next object creations will get; a creation fails
    (returns NULL) when the pool is empty or its head is not usable, so every pattern
    of native allocation failures is a state;
  \<^item> \<open>mem\<close>: the pointer-sized cells the out-parameters point to;
  \<^item> \<open>frames\<close>: the live \<open>info\<close> locals of running \<open>pthread_create\<close> calls, by address,
    and \<open>sp\<close>: the address the caller's next \<open>info\<close> local gets;
  \<^item> \<open>uninit\<close>: what an uninitialised DWORD local holds;
  \<^item> \<open>schedule\<close>: the threads the scheduler will prefer, in this order, when the
    caller is suspended, so every interleaving of the other threads' steps is a state;
  \<^item> \<open>log\<close>: the calls made so far.
\<close>

record 'a os =
  cur :: nat
  threads :: "'a tstate list"
  objects :: "'a \<rightharpoonup> kobj"
  pool :: "'a list"
  mem :: "'a \<Rightarrow> 'a"
  frames :: "'a \<rightharpoonup> 'a pthread_create_trampoline_info"
  sp :: "'a"
  uninit :: dword
  schedule :: "nat list"
  log :: "(nat \<times> 'a call) list"

datatype 'r outcome = Returns 'r | Blocks

definition trace :: "'a call \<Rightarrow> 'a os \<Rightarrow> 'a os" where
  "trace c s = s\<lparr>log := log s @ [(cur s, c)]\<rparr>"

definition thread_state :: "'a os \<Rightarrow> nat \<Rightarrow> 'a tstate" where
  "thread_state s t = (if t < length (threads s) then threads s ! t else Running)"

text \<open>The object a handle denotes for the caller.\<close>

definition resolve :: "('p::len) word os \<Rightarrow> 'p word \<Rightarrow> kobj option" where
  "resolve s h = (if h = CURRENT_THREAD then Some (Thread (cur s)) else objects s h)"

section \<open>The native primitives\<close>

text \<open>The header calls these and does not define them; they follow the documented
  contract of the Windows API, as far as the header depends on it.\<close>

definition GetCurrentThread :: "('p::len) word os \<Rightarrow> 'p word \<times> 'p word os" where
  "GetCurrentThread s = (CURRENT_THREAD, trace CallGetCurrentThread s)"

definition alloc_handle :: "kobj \<Rightarrow> ('p::len) word os \<Rightarrow> 'p word \<times> 'p word os" where
  "alloc_handle obj s =
     (case pool s of
        [] \<Rightarrow> (0, s)
      | h # hs \<Rightarrow>
          if h = 0 \<or> h = CURRENT_THREAD \<or> objects s h \<noteq> None
          then (0, s\<lparr>pool := hs\<rparr>)
          else (h, s\<lparr>pool := hs, objects := (objects s)(h \<mapsto> obj)\<rparr>))"

definition CreateEventA :: "bool \<Rightarrow> bool \<Rightarrow> ('p::len) word os \<Rightarrow> 'p word \<times> 'p word os" where
  "CreateEventA manual initial s =
     alloc_handle (Event manual initial) (trace (CallCreateEventA manual initial) s)"

definition CreateMutexA :: "bool \<Rightarrow> ('p::len) word os \<Rightarrow> 'p word \<times> 'p word os" where
  "CreateMutexA initial_owner s =
     alloc_handle (Mutex (if initial_owner then Some (cur s, 1) else None))
       (trace (CallCreateMutexA initial_owner) s)"

definition CreateThread :: "('p::len) word \<Rightarrow> 'p word os \<Rightarrow> 'p word \<times> 'p word os" where
  "CreateThread p s =
     (let s1 = trace (CallCreateThread p) s;
          (h, s2) = alloc_handle (Thread (length (threads s1))) s1
      in if h = 0 then (0, s2) else (h, s2\<lparr>threads := threads s2 @ [Ready p]\<rparr>))"

definition SetEvent :: "'a \<Rightarrow> 'a os \<Rightarrow> bool \<times> 'a os" where
  "SetEvent h s =
     (let s1 = trace (CallSetEvent h) s
      in case objects s1 h of
           Some (Event m b) \<Rightarrow> (True, s1\<lparr>objects := (objects s1)(h \<mapsto> Event m True)\<rparr>)
         | _ \<Rightarrow> (False, s1))"

definition CloseHandle :: "'a \<Rightarrow> 'a os \<Rightarrow> bool \<times> 'a os" where
  "CloseHandle h s =
     (let s1 = trace (CallCloseHandle h) s
      in if objects s1 h \<noteq> None then (True, s1\<lparr>objects := (objects s1)(h := None)\<rparr>)
         else (False, s1))"

definition ReleaseMutex :: "'a \<Rightarrow> 'a os \<Rightarrow> bool \<times> 'a os" where
  "ReleaseMutex h s =
     (let s1 = trace (CallReleaseMutex h) s
      in case objects s1 h of
           Some (Mutex (Some (t, n))) \<Rightarrow>
             if t = cur s1
             then (True, s1\<lparr>objects := (objects s1)(h \<mapsto>
                      Mutex (if n \<le> 1 then None else Some (t, n - 1)))\<rparr>)
             else (False, s1)
         | _ \<Rightarrow> (False, s1))"

text \<open>\<open>None\<close>: the call failed and wrote nothing to its out-parameter.\<close>

definition GetExitCodeThread :: "('p::len) word \<Rightarrow> 'p word os \<Rightarrow> dword option \<times> 'p word os" where
  "GetExitCodeThread h s =
     (let s1 = trace (CallGetExitCodeThread h) s
      in case resolve s1 h of
           Some (Thread t) \<Rightarrow>
             (case thread_state s1 t of
                Exited c \<Rightarrow> (Some c, s1)
              | _ \<Rightarrow> (Some STILL_ACTIVE, s1))
         | _ \<Rightarrow> (None, s1))"

text \<open>What a wait on an object gives the caller when it can be satisfied at once: the
  wait code and the object afterwards (an auto-reset event is reset, a mutex is owned).\<close>

definition try_wait :: "'a os \<Rightarrow> kobj \<Rightarrow> (dword \<times> kobj) option" where
  "try_wait s obj =
     (case obj of
        Event m b \<Rightarrow> if b then Some (WAIT_OBJECT_0, Event m m) else None
      | Thread t \<Rightarrow>
          (case thread_state s t of
             Exited c \<Rightarrow> Some (WAIT_OBJECT_0, Thread t)
           | _ \<Rightarrow> None)
      | Mutex None \<Rightarrow> Some (WAIT_OBJECT_0, Mutex (Some (cur s, 1)))
      | Mutex (Some (t, n)) \<Rightarrow>
          if t = cur s then Some (WAIT_OBJECT_0, Mutex (Some (t, n + 1)))
          else (case thread_state s t of
                  Exited c \<Rightarrow> Some (WAIT_ABANDONED, Mutex (Some (cur s, 1)))
                | _ \<Rightarrow> None))"

text \<open>One attempt of a wait: \<open>None\<close> when the caller would have to block.\<close>

definition poll :: "('p::len) word \<Rightarrow> 'p word os \<Rightarrow> (dword \<times> 'p word os) option" where
  "poll h s =
     (case resolve s h of
        None \<Rightarrow> Some (WAIT_FAILED, s)
      | Some obj \<Rightarrow>
          (case try_wait s obj of
             None \<Rightarrow> None
           | Some (r, obj') \<Rightarrow>
               Some (r, if h = CURRENT_THREAD then s
                        else s\<lparr>objects := (objects s)(h \<mapsto> obj')\<rparr>)))"

section \<open>pthread.h: the thread entry point\<close>

text \<open>
  \<^verbatim>\<open>
  static inline DWORD WINAPI pthread_create_trampoline(LPVOID p) {
    struct pthread_create_trampoline_info info = *(struct pthread_create_trampoline_info*)p;
    SetEvent(info.event);
    return (DWORD)info.start_routine(info.arg);
  }
  \<close>
  The trampoline in two parts, so that the scheduler can suspend the thread between
  them: the copy and the signal (\<open>None\<close> when \<open>p\<close> points to no live frame), then the
  call of the start routine on the copy, whose result, cast to DWORD, is the thread's
  exit code.
\<close>

definition trampoline_handshake ::
  "'a \<Rightarrow> 'a os \<Rightarrow> 'a pthread_create_trampoline_info option \<times> 'a os" where
  "trampoline_handshake p s =
     (case frames s p of
        None \<Rightarrow> (None, s)
      | Some info \<Rightarrow> (let (c, s1) = SetEvent (event info) s in (Some info, s1)))"

definition trampoline_call ::
  "('p::len) word pthread_create_trampoline_info \<Rightarrow> 'p word os \<Rightarrow> dword \<times> 'p word os" where
  "trampoline_call info s =
     (let r = start_routine info (arg info)
      in (ucast r, trace (CallStartRoutine (arg info) r) s))"

definition pthread_create_trampoline ::
  "('p::len) word \<Rightarrow> 'p word os \<Rightarrow> dword option \<times> 'p word os" where
  "pthread_create_trampoline p s =
     (case trampoline_handshake p s of
        (None, s1) \<Rightarrow> (None, s1)
      | (Some info, s1) \<Rightarrow> (let (c, s2) = trampoline_call info s1 in (Some c, s2)))"

section \<open>Scheduling\<close>

text \<open>
  The caller runs until it has to block in a wait; then the other threads take steps,
  one at a time, until the wait can be satisfied. A step takes a created thread through
  one part of the trampoline: from \<open>Ready\<close> through the handshake, or from \<open>InRoutine\<close>
  through the call of its start routine to its end. Start routines are functions of
  their argument: they call nothing of the header and always return.
\<close>

definition step_thread :: "nat \<Rightarrow> ('p::len) word os \<Rightarrow> 'p word os" where
  "step_thread t s =
     (if t \<noteq> cur s \<and> t < length (threads s) then
        (case threads s ! t of
           Ready p \<Rightarrow>
             (let (r, s1) = trampoline_handshake p (s\<lparr>cur := t\<rparr>)
              in s1\<lparr>cur := cur s,
                    threads := (threads s1)[t := (case r of None \<Rightarrow> Faulted
                                                  | Some info \<Rightarrow> InRoutine info)]\<rparr>)
         | InRoutine info \<Rightarrow>
             (let (c, s1) = trampoline_call info (s\<lparr>cur := t\<rparr>)
              in s1\<lparr>cur := cur s, threads := (threads s1)[t := Exited c]\<rparr>)
         | _ \<Rightarrow> s)
      else s)"

text \<open>The threads that can take a step, and the one that takes the next: the head of
  \<open>schedule\<close> if it can, the first that can otherwise.\<close>

definition runnable :: "'a os \<Rightarrow> nat \<Rightarrow> bool" where
  "runnable s t \<longleftrightarrow>
     t \<noteq> cur s \<and> t < length (threads s) \<and>
     (case threads s ! t of Ready p \<Rightarrow> True | InRoutine info \<Rightarrow> True | _ \<Rightarrow> False)"

definition next_thread :: "'a os \<Rightarrow> nat option" where
  "next_thread s =
     (case schedule s of
        t # ts \<Rightarrow> if runnable s t then Some t else find (runnable s) [0..<length (threads s)]
      | [] \<Rightarrow> find (runnable s) [0..<length (threads s)])"

text \<open>An upper bound of the steps the threads of a state can still take.\<close>

definition weight :: "'a tstate \<Rightarrow> nat" where
  "weight st = (case st of Ready p \<Rightarrow> 2 | InRoutine info \<Rightarrow> 1 | _ \<Rightarrow> 0)"

definition work :: "'a os \<Rightarrow> nat" where
  "work s = sum_list (map weight (threads s))"

text \<open>
  The wait proper: poll; when the caller would have to block and some thread can take a
  step, let it and poll again, for at most \<open>k\<close> steps. \<open>None\<close>: no result yet.
\<close>

primrec await ::
  "nat \<Rightarrow> ('p::len) word \<Rightarrow> 'p word os \<Rightarrow> dword option \<times> 'p word os" where
  "await 0 h s =
     (case poll h s of
        Some (r, s') \<Rightarrow> (Some r, s')
      | None \<Rightarrow> (None, s))"
| "await (Suc k) h s =
     (case poll h s of
        Some (r, s') \<Rightarrow> (Some r, s')
      | None \<Rightarrow>
          (case next_thread s of
             None \<Rightarrow> (None, s)
           | Some t \<Rightarrow> await k h (step_thread t (s\<lparr>schedule := tl (schedule s)\<rparr>))))"

text \<open>
  With INFINITE the other threads take as many steps as they have (\<open>work\<close> bounds them):
  a wait that is still not satisfied when no thread can take a step never returns,
  which is the result \<open>None\<close>. With a finite timeout the other threads take at most that
  many steps before the wait gives up with WAIT_TIMEOUT.
\<close>

definition WaitForSingleObject ::
  "('p::len) word \<Rightarrow> dword \<Rightarrow> 'p word os \<Rightarrow> dword option \<times> 'p word os" where
  "WaitForSingleObject h ms s =
     (let s1 = trace (CallWaitForSingleObject h ms) s
      in case await (if ms = INFINITE then work s1 else unat ms) h s1 of
           (Some r, s2) \<Rightarrow> (Some r, s2)
         | (None, s2) \<Rightarrow> if ms = INFINITE then (None, s2) else (Some WAIT_TIMEOUT, s2))"

section \<open>pthread.h: the thread operations\<close>

definition pthread_self :: "('p::len) word os \<Rightarrow> 'p word \<times> 'p word os" where
  "pthread_self s = GetCurrentThread s"

definition pthread_equal :: "'a \<Rightarrow> 'a \<Rightarrow> int" where
  "pthread_equal t1 t2 = (if t1 = t2 then 1 else 0)"

text \<open>
  \<^verbatim>\<open>
  struct pthread_create_trampoline_info info = { start_routine, arg,
    CreateEventA(NULL, FALSE, FALSE, NULL) };
  *thread = CreateThread(NULL, 0, pthread_create_trampoline, &info, 0, NULL);
  WaitForSingleObject(info.event, INFINITE);
  CloseHandle(info.event);
  if (*thread) { return 0; }
  return ENOMEM;
  \<close>
  \<open>info\<close> lives in the caller's frame, at \<open>sp\<close>, from its initialisation to the return.
\<close>

definition pthread_create ::
  "('p::len) word \<Rightarrow> 'p word \<Rightarrow> ('p word \<Rightarrow> 'p word) \<Rightarrow> 'p word \<Rightarrow> 'p word os
     \<Rightarrow> int outcome \<times> 'p word os" where
  "pthread_create thread attr routine a s =
     (let (ev, s1) = CreateEventA False False s;
          info = \<lparr>start_routine = routine, arg = a, event = ev\<rparr>;
          p = sp s1;
          s2 = s1\<lparr>frames := (frames s1)(p \<mapsto> info)\<rparr>;
          (h, s3) = CreateThread p s2;
          s4 = s3\<lparr>mem := (mem s3)(thread := h)\<rparr>
      in case WaitForSingleObject (event info) INFINITE s4 of
           (None, s5) \<Rightarrow> (Blocks, s5)
         | (Some w, s5) \<Rightarrow>
             (let (c, s6) = CloseHandle (event info) s5;
                  s7 = s6\<lparr>frames := (frames s6)(p := None)\<rparr>
              in (Returns (if mem s7 thread \<noteq> 0 then 0 else ENOMEM), s7)))"

text \<open>
  \<^verbatim>\<open>
  HANDLE me = GetCurrentThread();
  if (thread == me) { return EDEADLK; }
  WaitForSingleObject(thread, INFINITE);
  if (retval) { DWORD status; GetExitCodeThread(thread, &status); *retval = (void*)status; }
  CloseHandle(thread);
  return 0;
  \<close>
\<close>

definition pthread_join ::
  "('p::len) word \<Rightarrow> 'p word \<Rightarrow> 'p word os \<Rightarrow> int outcome \<times> 'p word os" where
  "pthread_join thread retval s =
     (let (me, s1) = GetCurrentThread s
      in if thread = me then (Returns EDEADLK, s1)
         else
           (case WaitForSingleObject thread INFINITE s1 of
              (None, s2) \<Rightarrow> (Blocks, s2)
            | (Some w, s2) \<Rightarrow>
                (let s3 =
                       (if retval \<noteq> 0 then
                          (let (r, s') = GetExitCodeThread thread s2;
                               status = (case r of Some c \<Rightarrow> c | None \<Rightarrow> uninit s')
                           in s'\<lparr>mem := (mem s')(retval := ucast status)\<rparr>)
                        else s2);
                     (c, s4) = CloseHandle thread s3
                 in (Returns 0, s4))))"

section \<open>pthread.h: the mutex operations\<close>

text \<open>\<open>mutex\<close> is the \<^verbatim>\<open>pthread_mutex_t *\<close> the caller passes: the address of the cell
  that holds the handle. \<open>pthread_mutex_init\<close> stores through it; the other three pass
  the pointer itself to the native call, as the header does.\<close>

definition pthread_mutex_destroy :: "'a \<Rightarrow> 'a os \<Rightarrow> int \<times> 'a os" where
  "pthread_mutex_destroy mutex s = (let (c, s1) = CloseHandle mutex s in (0, s1))"

definition pthread_mutex_init ::
  "('p::len) word \<Rightarrow> 'p word \<Rightarrow> 'p word os \<Rightarrow> int \<times> 'p word os" where
  "pthread_mutex_init mutex attr s =
     (let (h, s1) = CreateMutexA False s;
          s2 = s1\<lparr>mem := (mem s1)(mutex := h)\<rparr>
      in (if mem s2 mutex \<noteq> 0 then 0 else ENOMEM, s2))"

definition pthread_mutex_lock ::
  "('p::len) word \<Rightarrow> 'p word os \<Rightarrow> int outcome \<times> 'p word os" where
  "pthread_mutex_lock mutex s =
     (case WaitForSingleObject mutex INFINITE s of
        (None, s1) \<Rightarrow> (Blocks, s1)
      | (Some w, s1) \<Rightarrow> (Returns (if w = WAIT_OBJECT_0 then 0 else EINVAL), s1))"

definition pthread_mutex_unlock :: "'a \<Rightarrow> 'a os \<Rightarrow> int \<times> 'a os" where
  "pthread_mutex_unlock mutex s = (let (c, s1) = ReleaseMutex mutex s in (0, s1))"

section \<open>Observations\<close>

text \<open>The calls a thread made between two states of one run.\<close>

definition calls_by :: "nat \<Rightarrow> (nat \<times> 'a call) list \<Rightarrow> 'a call list" where
  "calls_by t l = map snd (filter (\<lambda>e. fst e = t) l)"

definition new_calls :: "'a os \<Rightarrow> 'a os \<Rightarrow> 'a call list" where
  "new_calls s s' = calls_by (cur s) (drop (length (log s)) (log s'))"

text \<open>The state in which \<open>pthread_create\<close> calls CreateThread: the event has been
  requested and \<open>info\<close> is initialised in the caller's frame.\<close>

definition at_CreateThread ::
  "(('p::len) word \<Rightarrow> 'p word) \<Rightarrow> 'p word \<Rightarrow> 'p word os \<Rightarrow> 'p word os" where
  "at_CreateThread routine a s =
     (let (ev, s1) = CreateEventA False False s
      in s1\<lparr>frames := (frames s1)(sp s1 \<mapsto> \<lparr>start_routine = routine, arg = a, event = ev\<rparr>)\<rparr>)"

text \<open>What the threads other than the caller can have done while the caller was
  suspended: they leave the caller's data alone, log under their own names, signal
  events, and move on in the trampoline.\<close>

definition others_ran :: "'a os \<Rightarrow> 'a os \<Rightarrow> bool" where
  "others_ran s s' \<longleftrightarrow>
     cur s' = cur s \<and> mem s' = mem s \<and> frames s' = frames s \<and> sp s' = sp s \<and>
     pool s' = pool s \<and> uninit s' = uninit s \<and> length (threads s') = length (threads s) \<and>
     (\<exists>xs. log s' = log s @ xs \<and> (\<forall>e \<in> set xs. fst e \<noteq> cur s)) \<and>
     (\<forall>h. case objects s h of
            None \<Rightarrow> objects s' h = None
          | Some (Event m b) \<Rightarrow> (\<exists>b'. objects s' h = Some (Event m b') \<and> (b \<longrightarrow> b'))
          | Some obj \<Rightarrow> objects s' h = Some obj) \<and>
     (\<forall>t. weight (thread_state s t) = 0 \<longrightarrow> thread_state s' t = thread_state s t)"

text \<open>What the caller keeps across a suspension of its own: \<open>others_ran\<close> without the
  handle table, which the caller's own wait changes as well.\<close>

definition kept :: "'a os \<Rightarrow> 'a os \<Rightarrow> bool" where
  "kept s s' \<longleftrightarrow>
     cur s' = cur s \<and> mem s' = mem s \<and> frames s' = frames s \<and> sp s' = sp s \<and>
     pool s' = pool s \<and> uninit s' = uninit s \<and> length (threads s') = length (threads s) \<and>
     (\<exists>xs. log s' = log s @ xs \<and> (\<forall>e \<in> set xs. fst e \<noteq> cur s))"

text \<open>What one wait of the caller leaves behind, whatever its result.\<close>

definition waited :: "'a \<Rightarrow> dword \<Rightarrow> 'a os \<Rightarrow> 'a os \<Rightarrow> bool" where
  "waited h ms s s' \<longleftrightarrow>
     cur s' = cur s \<and> mem s' = mem s \<and> frames s' = frames s \<and> sp s' = sp s \<and>
     pool s' = pool s \<and> uninit s' = uninit s \<and> length (threads s') = length (threads s) \<and>
     (\<exists>xs. log s' = log s @ (cur s, CallWaitForSingleObject h ms) # xs \<and>
           (\<forall>e \<in> set xs. fst e \<noteq> cur s))"


section \<open>Example states\<close>

text \<open>A process in which one thread runs and nothing has been created; the object
  manager will hand out the handles \<open>hs\<close>, and the caller's frame is at \<open>stack\<close>.\<close>

definition boot :: "('a::zero) list \<Rightarrow> 'a \<Rightarrow> 'a os" where
  "boot hs stack =
     \<lparr>cur = 0, threads = [Running], objects = Map.empty, pool = hs,
      mem = (\<lambda>_. 0), frames = Map.empty, sp = stack, uninit = 0, schedule = [],
      log = []\<rparr>"

text \<open>Two start routines on a 64-bit target.\<close>

definition successor :: "64 word \<Rightarrow> 64 word" where
  "successor x = x + 1"


text \<open>After a successful \<open>pthread_create\<close> with the handle stored at \<open>0x1000\<close>.\<close>

definition spawned :: "64 word os" where
  "spawned = snd (pthread_create 0x1000 0 successor 7 (boot [0x10, 0x14] 0x2000))"


text \<open>Thread 1 runs; \<open>0x14\<close> is the handle its creator got for it.\<close>

definition self_joiner :: "64 word os" where
  "self_joiner =
     \<lparr>cur = 1, threads = [Running, Running], objects = [0x14 \<mapsto> Thread 1], pool = [],
      mem = (\<lambda>_. 0), frames = Map.empty, sp = 0x3000, uninit = 0, schedule = [],
      log = []\<rparr>"

text \<open>After \<open>pthread_mutex_init\<close> on the cell at \<open>0x1000\<close>.\<close>

definition initialised :: "64 word os" where
  "initialised = snd (pthread_mutex_init 0x1000 0 (boot [0x10] 0x2000))"

text \<open>The cell at \<open>0x1000\<close> holds an old value; the event can be created, the thread
  cannot.\<close>

definition stale_cell :: "64 word os" where
  "stale_cell = (boot [0x10, 0] 0x2000)\<lparr>mem := (\<lambda>_. 0xDEAD)\<rparr>"

section \<open>Facts about the log\<close>

lemma calls_by_append: "calls_by t (xs @ ys) = calls_by t xs @ calls_by t ys"
  by (simp add: calls_by_def)

lemma calls_by_Cons: "calls_by t (e # xs) = (if fst e = t then snd e # calls_by t xs else calls_by t xs)"
  by (simp add: calls_by_def)

lemma calls_by_Nil: "calls_by t [] = []"
  by (simp add: calls_by_def)

lemma calls_by_others: "\<forall>e \<in> set xs. fst e \<noteq> t \<Longrightarrow> calls_by t xs = []"
  by (induction xs) (auto simp: calls_by_def)

section \<open>Facts about the native primitives\<close>

lemmas native_defs = GetCurrentThread_def alloc_handle_def CreateEventA_def CreateMutexA_def
  CreateThread_def SetEvent_def CloseHandle_def ReleaseMutex_def GetExitCodeThread_def
  try_wait_def poll_def resolve_def thread_state_def trace_def CURRENT_THREAD_def
  trampoline_handshake_def trampoline_call_def step_thread_def runnable_def next_thread_def
  weight_def work_def WaitForSingleObject_def

lemma alloc_handle_fields:
  "cur (snd (alloc_handle obj s)) = cur s"
  "threads (snd (alloc_handle obj s)) = threads s"
  "mem (snd (alloc_handle obj s)) = mem s"
  "frames (snd (alloc_handle obj s)) = frames s"
  "sp (snd (alloc_handle obj s)) = sp s"
  "log (snd (alloc_handle obj s)) = log s"
  by (auto simp: alloc_handle_def split: list.splits)

lemma alloc_handle_fail:
  "fst (alloc_handle obj s) = 0 \<Longrightarrow> objects (snd (alloc_handle obj s)) = objects s"
  by (auto simp: alloc_handle_def split: list.splits if_splits)

lemma alloc_handle_ok:
  "fst (alloc_handle obj s) \<noteq> 0 \<Longrightarrow>
     objects (snd (alloc_handle obj s)) = (objects s)(fst (alloc_handle obj s) \<mapsto> obj) \<and>
     objects s (fst (alloc_handle obj s)) = None \<and>
     fst (alloc_handle obj s) \<noteq> CURRENT_THREAD"
  by (auto simp: alloc_handle_def split: list.splits if_splits)

lemma CreateEventA_fields:
  "cur (snd (CreateEventA m i s)) = cur s"
  "threads (snd (CreateEventA m i s)) = threads s"
  "mem (snd (CreateEventA m i s)) = mem s"
  "frames (snd (CreateEventA m i s)) = frames s"
  "sp (snd (CreateEventA m i s)) = sp s"
  "log (snd (CreateEventA m i s)) = log s @ [(cur s, CallCreateEventA m i)]"
  by (simp_all add: CreateEventA_def alloc_handle_fields trace_def)


lemma CreateThread_fields:
  "cur (snd (CreateThread p s)) = cur s"
  "mem (snd (CreateThread p s)) = mem s"
  "frames (snd (CreateThread p s)) = frames s"
  "sp (snd (CreateThread p s)) = sp s"
  "log (snd (CreateThread p s)) = log s @ [(cur s, CallCreateThread p)]"
  using alloc_handle_fields [of "Thread (length (threads s))" "trace (CallCreateThread p) s"]
  by (auto simp: CreateThread_def Let_def trace_def split: prod.splits)

lemma CreateThread_ok:
  assumes "fst (CreateThread p s) \<noteq> 0"
  shows "objects (snd (CreateThread p s)) =
           (objects s)(fst (CreateThread p s) \<mapsto> Thread (length (threads s)))"
    "fst (CreateThread p s) \<noteq> CURRENT_THREAD"
    "objects s (fst (CreateThread p s)) = None"
    "threads (snd (CreateThread p s)) = threads s @ [Ready p]"
proof -
  let ?s1 = "trace (CallCreateThread p) s"
  obtain h s2 where a: "alloc_handle (Thread (length (threads s))) ?s1 = (h, s2)"
    by (cases "alloc_handle (Thread (length (threads s))) ?s1")
  have h: "h \<noteq> 0" "fst (CreateThread p s) = h"
    using assms a by (auto simp: CreateThread_def Let_def trace_def split: if_splits)
  have s: "snd (CreateThread p s) = s2\<lparr>threads := threads s2 @ [Ready p]\<rparr>"
    using a h by (simp add: CreateThread_def Let_def trace_def)
  have t2: "threads s2 = threads s"
    using alloc_handle_fields(2) [of "Thread (length (threads s))" ?s1] a by (simp add: trace_def)
  note ok = alloc_handle_ok [of "Thread (length (threads s))" ?s1, unfolded a, simplified, OF h(1)]
  show "objects (snd (CreateThread p s)) =
           (objects s)(fst (CreateThread p s) \<mapsto> Thread (length (threads s)))"
    using ok h s by (simp add: trace_def)
  show "fst (CreateThread p s) \<noteq> CURRENT_THREAD" using ok h by simp
  show "objects s (fst (CreateThread p s)) = None" using ok h by (simp add: trace_def)
  show "threads (snd (CreateThread p s)) = threads s @ [Ready p]" using s t2 by simp
qed

lemma CloseHandle_fields:
  "cur (snd (CloseHandle h s)) = cur s"
  "threads (snd (CloseHandle h s)) = threads s"
  "mem (snd (CloseHandle h s)) = mem s"
  "frames (snd (CloseHandle h s)) = frames s"
  "objects (snd (CloseHandle h s)) = (objects s)(h := None)"
  "log (snd (CloseHandle h s)) = log s @ [(cur s, CallCloseHandle h)]"
  by (auto simp: CloseHandle_def trace_def Let_def)

lemma poll_fields:
  assumes "poll h s = Some (r, s')"
  shows "cur s' = cur s" "mem s' = mem s" "frames s' = frames s" "sp s' = sp s"
    "pool s' = pool s" "uninit s' = uninit s" "threads s' = threads s" "log s' = log s"
    "schedule s' = schedule s"
  using assms by (auto simp: poll_def split: option.splits if_splits)

section \<open>Facts about scheduling\<close>

text \<open>
  The two steps of a created thread are the trampoline, from its first line to its
  return.
\<close>

lemma step_thread_twice:
  assumes "t \<noteq> cur s" "t < length (threads s)" "threads s ! t = Ready p"
    "pthread_create_trampoline p (s\<lparr>cur := t\<rparr>) = (r, s')"
  shows "step_thread t (step_thread t s) =
           s'\<lparr>cur := cur s,
              threads := (threads s')[t := (case r of None \<Rightarrow> Faulted | Some c \<Rightarrow> Exited c)]\<rparr>"
  using assms
  by (auto simp: step_thread_def pthread_create_trampoline_def trampoline_handshake_def
      trampoline_call_def SetEvent_def trace_def Let_def
      split: option.splits kobj.splits prod.splits)




lemma others_ran_trans:
  assumes "others_ran s s'" "others_ran s' s''"
  shows "others_ran s s''"
proof -
  have obj: "\<And>h. case objects s h of
            None \<Rightarrow> objects s'' h = None
          | Some (Event m b) \<Rightarrow> (\<exists>b'. objects s'' h = Some (Event m b') \<and> (b \<longrightarrow> b'))
          | Some obj \<Rightarrow> objects s'' h = Some obj"
  proof -
    fix h
    from assms have a: "case objects s h of
            None \<Rightarrow> objects s' h = None
          | Some (Event m b) \<Rightarrow> (\<exists>b'. objects s' h = Some (Event m b') \<and> (b \<longrightarrow> b'))
          | Some obj \<Rightarrow> objects s' h = Some obj"
      and b: "case objects s' h of
            None \<Rightarrow> objects s'' h = None
          | Some (Event m b) \<Rightarrow> (\<exists>b'. objects s'' h = Some (Event m b') \<and> (b \<longrightarrow> b'))
          | Some obj \<Rightarrow> objects s'' h = Some obj"
      by (simp_all add: others_ran_def)
    show "case objects s h of
            None \<Rightarrow> objects s'' h = None
          | Some (Event m b) \<Rightarrow> (\<exists>b'. objects s'' h = Some (Event m b') \<and> (b \<longrightarrow> b'))
          | Some obj \<Rightarrow> objects s'' h = Some obj"
      using a b by (auto split: option.splits kobj.splits)
  qed
  from assms obtain xs ys where l: "log s' = log s @ xs" "\<forall>e \<in> set xs. fst e \<noteq> cur s"
     "log s'' = log s' @ ys" "\<forall>e \<in> set ys. fst e \<noteq> cur s'"
    by (auto simp: others_ran_def)
  from assms have c: "cur s' = cur s" by (simp add: others_ran_def)
  have lg: "\<exists>zs. log s'' = log s @ zs \<and> (\<forall>e \<in> set zs. fst e \<noteq> cur s)"
    using l c by (intro exI[of _ "xs @ ys"]) auto
  have th: "\<forall>t. weight (thread_state s t) = 0 \<longrightarrow> thread_state s'' t = thread_state s t"
    using assms by (simp add: others_ran_def)
  show ?thesis
    unfolding others_ran_def using assms obj lg th
    by (simp add: others_ran_def)
qed

lemma others_ran_step_thread: "others_ran s (step_thread t s)"
  by (auto simp: others_ran_def step_thread_def trampoline_handshake_def trampoline_call_def
        SetEvent_def trace_def thread_state_def weight_def Let_def nth_list_update
      split: tstate.splits option.splits kobj.splits prod.splits)

lemma others_ran_schedule: "others_ran s (s\<lparr>schedule := x\<rparr>)"
  by (auto simp: others_ran_def thread_state_def split: option.splits kobj.splits)

lemma others_ran_step: "others_ran s (step_thread t (s\<lparr>schedule := x\<rparr>))"
  by (rule others_ran_trans [OF others_ran_schedule others_ran_step_thread])




text \<open>
  The scheduler picks a thread that can take a step whenever there is one, and every
  step uses up some of the work that is left.
\<close>

lemma next_thread_runnable: "next_thread s = Some t \<Longrightarrow> runnable s t"
  by (auto simp: next_thread_def find_Some_iff split: list.splits if_splits)

lemma next_thread_None: "next_thread s = None \<Longrightarrow> \<not> runnable s t"
  by (auto simp: next_thread_def find_None_iff runnable_def split: list.splits if_splits)

lemma runnable_schedule [simp]: "runnable (s\<lparr>schedule := x\<rparr>) t = runnable s t"
  by (simp add: runnable_def)

lemma work_schedule [simp]: "work (s\<lparr>schedule := x\<rparr>) = work s"
  by (simp add: work_def)

lemma work_trace [simp]: "work (trace c s) = work s"
  by (simp add: work_def trace_def)

lemma sum_list_weight_update:
  "i < length xs \<Longrightarrow> weight y < weight (xs ! i) \<Longrightarrow>
     sum_list (map weight (xs[i := y])) < sum_list (map weight xs)"
proof (induction xs arbitrary: i)
  case Nil
  then show ?case by simp
next
  case (Cons x xs)
  then show ?case by (cases i) auto
qed

lemma step_thread_threads:
  "runnable s t \<Longrightarrow> \<exists>y. threads (step_thread t s) = (threads s)[t := y] \<and> weight y < weight (threads s ! t)"
  by (auto simp: runnable_def step_thread_def trampoline_handshake_def trampoline_call_def
      SetEvent_def trace_def weight_def Let_def
      split: tstate.splits option.splits kobj.splits)

lemma work_step: "runnable s t \<Longrightarrow> work (step_thread t s) < work s"
proof -
  assume r: "runnable s t"
  then obtain y where y: "threads (step_thread t s) = (threads s)[t := y]"
      "weight y < weight (threads s ! t)"
    using step_thread_threads by blast
  have "t < length (threads s)" using r by (simp add: runnable_def)
  then show ?thesis using y by (simp add: work_def sum_list_weight_update)
qed

lemma runnable_work: "runnable (s :: ('p::len) word os) t \<Longrightarrow> 0 < work s"
  using work_step [of s t] by simp





section \<open>Facts about waiting\<close>

lemma await_numeral:
  "await (numeral v) h s =
     (case poll h s of
        Some (r, s') \<Rightarrow> (Some r, s')
      | None \<Rightarrow>
          (case next_thread s of
             None \<Rightarrow> (None, s)
           | Some t \<Rightarrow> await (pred_numeral v) h (step_thread t (s\<lparr>schedule := tl (schedule s)\<rparr>))))"
  by (simp add: numeral_eq_Suc)


lemma kept_refl: "kept s s"
  by (simp add: kept_def)

lemma kept_trans: "kept s s' \<Longrightarrow> kept s' s'' \<Longrightarrow> kept s s''"
  by (auto simp: kept_def)

lemma others_ran_kept: "others_ran s s' \<Longrightarrow> kept s s'"
  by (simp add: others_ran_def kept_def)

lemma kept_poll: "poll h s = Some (r, s') \<Longrightarrow> kept s s'"
  using poll_fields [of h s r s'] by (simp add: kept_def)

lemma kept_log:
  assumes "kept s s'"
  obtains xs where "log s' = log s @ xs" "\<forall>e \<in> set xs. fst e \<noteq> cur s"
  using assms by (auto simp: kept_def)


lemma kept_await: "kept s (snd (await k h s))"
proof (induction k arbitrary: s)
  case 0
  show ?case
    by (cases "poll h s") (auto simp: kept_refl kept_poll)
next
  case (Suc k)
  show ?case
  proof (cases "poll h s")
    case (Some a)
    then show ?thesis by (cases a) (simp add: kept_poll)
  next
    case None
    show ?thesis
    proof (cases "next_thread s")
      case None2: None
      then show ?thesis using None by (simp add: kept_refl)
    next
      case (Some t)
      have "kept s (step_thread t (s\<lparr>schedule := tl (schedule s)\<rparr>))"
        by (rule others_ran_kept [OF others_ran_step])
      then show ?thesis
        using None Some kept_trans [OF _ Suc.IH] by simp
    qed
  qed
qed

lemma waited_kept:
  assumes "kept (trace (CallWaitForSingleObject h ms) s) s2"
  shows "waited h ms s s2"
  using assms by (auto simp: kept_def waited_def trace_def)

lemma WaitForSingleObject_waited: "waited h ms s (snd (WaitForSingleObject h ms s))"
proof -
  let ?s1 = "trace (CallWaitForSingleObject h ms) s"
  let ?k = "if ms = INFINITE then work ?s1 else unat ms"
  have "snd (WaitForSingleObject h ms s) = snd (await ?k h ?s1)"
    by (simp add: WaitForSingleObject_def Let_def split: prod.splits option.splits)
  then show ?thesis
    using waited_kept [OF kept_await [of ?s1 ?k h]] by simp
qed

lemma waited_new_calls:
  "waited h ms s s' \<Longrightarrow> new_calls s s' = [CallWaitForSingleObject h ms]"
  by (auto simp: waited_def new_calls_def calls_by_Cons calls_by_others)

lemma waited_fields:
  assumes "waited h ms s s'"
  shows "cur s' = cur s" "mem s' = mem s" "frames s' = frames s" "sp s' = sp s"
  using assms by (simp_all add: waited_def)

lemmas Wait_fields = waited_fields [OF WaitForSingleObject_waited]

lemma waited_CloseHandle_calls:
  assumes "waited h ms (trace c0 s) s2"
  shows "new_calls s (snd (CloseHandle h' s2)) = [c0, CallWaitForSingleObject h ms, CallCloseHandle h']"
  using assms
  by (auto simp: waited_def CloseHandle_def trace_def new_calls_def calls_by_Cons calls_by_append
      calls_by_others calls_by_Nil Let_def)

text \<open>
  A wait with INFINITE that does not return has left no thread that could take a
  step: the fuel it gives \<open>await\<close> is enough.
\<close>

lemma await_stuck:
  "work s \<le> k \<Longrightarrow> await k h s = (None, s') \<Longrightarrow> poll h s' = None \<and> (\<forall>t. \<not> runnable s' t)"
proof (induction k arbitrary: s)
  case 0
  then have "\<forall>t. \<not> runnable s t" using runnable_work [of s] by auto
  then show ?case using 0 by (auto split: option.splits)
next
  case (Suc k)
  show ?case
  proof (cases "poll h s")
    case (Some a)
    then show ?thesis using Suc.prems by (cases a) simp
  next
    case None
    show ?thesis
    proof (cases "next_thread s")
      case None2: None
      then show ?thesis using None Suc.prems next_thread_None [of s] by auto
    next
      case (Some t)
      let ?s1 = "step_thread t (s\<lparr>schedule := tl (schedule s)\<rparr>)"
      have "work ?s1 < work s"
        using work_step [of "s\<lparr>schedule := tl (schedule s)\<rparr>" t] next_thread_runnable [OF Some]
        by simp
      then have "work ?s1 \<le> k" using Suc.prems(1) by simp
      then show ?thesis using Suc.IH [of ?s1] Suc.prems(2) None Some by simp
    qed
  qed
qed

lemma await_thread_exited:
  "await k h s = (Some w, s') \<Longrightarrow> objects s h = Some (Thread t) \<Longrightarrow> h \<noteq> CURRENT_THREAD \<Longrightarrow>
     \<exists>c. thread_state s' t = Exited c"
proof (induction k arbitrary: s)
  case 0
  then show ?case
    by (auto simp: poll_def resolve_def try_wait_def thread_state_def
        split: option.splits tstate.splits if_splits)
next
  case (Suc k)
  show ?case
  proof (cases "poll h s")
    case (Some a)
    then show ?thesis using Suc.prems
      by (cases a)
         (auto simp: poll_def resolve_def try_wait_def thread_state_def
           split: option.splits tstate.splits if_splits)
  next
    case None
    show ?thesis
    proof (cases "next_thread s")
      case None2: None
      then show ?thesis using None Suc.prems by simp
    next
      case (Some u)
      let ?s1 = "step_thread u (s\<lparr>schedule := tl (schedule s)\<rparr>)"
      have "others_ran s ?s1" by (rule others_ran_step)
      then have "objects ?s1 h = Some (Thread t)"
        using Suc.prems(2)
        by (auto simp: others_ran_def split: option.splits kobj.splits dest!: spec [of _ h])
      then show ?thesis using Suc.IH [of ?s1] Suc.prems None Some by simp
    qed
  qed
qed

lemma WaitForSingleObject_thread_exited:
  assumes "WaitForSingleObject h INFINITE s = (Some w, s')" "objects s h = Some (Thread t)"
    "h \<noteq> CURRENT_THREAD"
  shows "\<exists>c. thread_state s' t = Exited c"
proof -
  let ?s1 = "trace (CallWaitForSingleObject h INFINITE) s"
  have o1: "objects ?s1 h = Some (Thread t)" using assms(2) by (simp add: trace_def)
  have "await (work ?s1) h ?s1 = (Some w, s')"
    using assms(1) by (auto simp: WaitForSingleObject_def Let_def split: prod.splits option.splits)
  then show ?thesis using await_thread_exited [OF _ o1 assms(3)] by blast
qed



section \<open>Facts about creation and joining\<close>

lemma pthread_create_unfold:
  "pthread_create thread attr routine a s =
     (let s2 = at_CreateThread routine a s;
          ev = fst (CreateEventA False False s);
          h = fst (CreateThread (sp s) s2);
          s4 = (snd (CreateThread (sp s) s2))\<lparr>mem := (mem s2)(thread := h)\<rparr>
      in case WaitForSingleObject ev INFINITE s4 of
           (None, s5) \<Rightarrow> (Blocks, s5)
         | (Some w, s5) \<Rightarrow>
             (let s6 = snd (CloseHandle ev s5)
              in (Returns (if h \<noteq> 0 then 0 else ENOMEM),
                  s6\<lparr>frames := (frames s6)(sp s := None)\<rparr>)))"
proof -
  obtain ev s1 where e: "CreateEventA False False s = (ev, s1)"
    by (cases "CreateEventA False False s")
  have sp1: "sp s1 = sp s" using CreateEventA_fields(5) [of False False s] e by simp
  let ?s2 = "s1\<lparr>frames := (frames s1)(sp s \<mapsto> \<lparr>start_routine = routine, arg = a, event = ev\<rparr>)\<rparr>"
  obtain h s3 where t: "CreateThread (sp s) ?s2 = (h, s3)"
    by (cases "CreateThread (sp s) ?s2")
  have m3: "mem s3 = mem ?s2" using CreateThread_fields(2) [of "sp s" ?s2] t by simp
  let ?s4 = "s3\<lparr>mem := (mem s3)(thread := h)\<rparr>"
  obtain w s5 where W: "WaitForSingleObject ev INFINITE ?s4 = (w, s5)"
    by (cases "WaitForSingleObject ev INFINITE ?s4")
  have m5: "mem s5 = mem ?s4" using Wait_fields(2) [of ev INFINITE ?s4] W by simp
  obtain c s6 where C: "CloseHandle ev s5 = (c, s6)"
    by (cases "CloseHandle ev s5")
  have m6: "mem s6 = mem s5" using CloseHandle_fields(3) [of ev s5] C by simp
  show ?thesis
    using e sp1 t m3 W m5 C m6
    by (cases w) (simp_all add: pthread_create_def at_CreateThread_def Let_def)
qed




text \<open>
  The handle of \<open>pthread_self\<close> is the one handle the guard of \<open>pthread_join\<close>
  catches; no handle that CreateThread returns is that value.
\<close>

lemma pthread_join_self_deadlock:
  "pthread_join (fst (pthread_self s0)) retval s = (Returns EDEADLK, snd (GetCurrentThread s)) \<and>
   new_calls s (snd (pthread_join (fst (pthread_self s0)) retval s)) = [CallGetCurrentThread] \<and>
   objects (snd (pthread_join (fst (pthread_self s0)) retval s)) = objects s \<and>
   mem (snd (pthread_join (fst (pthread_self s0)) retval s)) = mem s \<and>
   threads (snd (pthread_join (fst (pthread_self s0)) retval s)) = threads s"
  by (simp add: pthread_join_def pthread_self_def GetCurrentThread_def trace_def new_calls_def
      calls_by_def)

lemma created_handle_never_self:
  "fst (CreateThread p s) \<noteq> 0 \<Longrightarrow> fst (CreateThread p s) \<noteq> fst (pthread_self s')"
  using CreateThread_ok(2) [of p s] by (simp add: pthread_self_def GetCurrentThread_def)

section \<open>The claims\<close>

subsection \<open>C1: the argument reaches the routine, the result reaches join\<close>




subsection \<open>C2: a failed event creation\<close>

text \<open>
  C2 says that \<open>pthread_create\<close> fails without calling CreateThread when the handshake
  event cannot be created. The header never looks at the result of CreateEventA. With
  the event refused and the thread granted, CreateThread is called with a NULL event in
  \<open>info\<close>, the wait on NULL fails at once, and \<open>pthread_create\<close> returns 0 with the new
  thread started and not yet run, while \<open>info\<close> is gone from the caller's frame.
\<close>

theorem pthread_create_event_failure_starts_thread:
  "fst (CreateEventA False False (boot [0, 0x14] (0x2000 :: 64 word))) = 0 \<and>
   fst (pthread_create 0x1000 0 successor 7 (boot [0, 0x14] 0x2000)) = Returns 0 \<and>
   new_calls (boot [0, 0x14] 0x2000) (snd (pthread_create 0x1000 0 successor 7 (boot [0, 0x14] 0x2000))) =
     [CallCreateEventA False False, CallCreateThread 0x2000,
      CallWaitForSingleObject 0 INFINITE, CallCloseHandle 0] \<and>
   threads (snd (pthread_create 0x1000 0 successor 7 (boot [0, 0x14] 0x2000))) =
     [Running, Ready 0x2000] \<and>
   objects (snd (pthread_create 0x1000 0 successor 7 (boot [0, 0x14] 0x2000))) 0x14 =
     Some (Thread 1)"
  by (simp add: pthread_create_def native_defs boot_def new_calls_def calls_by_def)

subsection \<open>C3: joining oneself\<close>

text \<open>
  C3 says that \<open>pthread_join\<close> returns EDEADLK at once for every handle that denotes
  the calling thread. The header's guard (\<^verbatim>\<open>if (thread == me)\<close>, "Can't join myself")
  compares the handle with the value of GetCurrentThread, which is the pseudo handle and
  never a handle that \<open>pthread_create\<close> hands out. A thread that joins the handle its
  creator got for it, which denotes the thread, passes the guard, goes on to wait for
  itself and blocks forever.
\<close>

theorem pthread_join_own_handle_blocks:
  "resolve self_joiner 0x14 = Some (Thread (cur self_joiner)) \<and>
   fst (pthread_join 0x14 0 self_joiner) = Blocks \<and>
   new_calls self_joiner (snd (pthread_join 0x14 0 self_joiner)) =
     [CallGetCurrentThread, CallWaitForSingleObject 0x14 INFINITE]"
  by (simp add: self_joiner_def pthread_join_def native_defs INFINITE_def new_calls_def
      calls_by_def upt_rec await_numeral Let_def)

subsection \<open>C4: a failed thread creation\<close>

text \<open>
  C4 says that \<open>pthread_create\<close> returns ENOMEM when CreateThread returns NULL. The
  header waits for the handshake event before it looks at the handle. With the event
  created and the thread refused there is no trampoline to signal the event: the wait
  with INFINITE never returns, and neither does \<open>pthread_create\<close>.
\<close>

theorem pthread_create_thread_failure_blocks:
  "fst (CreateThread (sp (boot [0x10, 0] 0x2000))
          (at_CreateThread successor 7 (boot [0x10, 0] 0x2000))) = 0 \<and>
   fst (pthread_create 0x1000 0 successor 7 (boot [0x10, 0] 0x2000)) = Blocks \<and>
   new_calls (boot [0x10, 0] 0x2000) (snd (pthread_create 0x1000 0 successor 7 (boot [0x10, 0] 0x2000))) =
     [CallCreateEventA False False, CallCreateThread 0x2000,
      CallWaitForSingleObject 0x10 INFINITE] \<and>
   threads (snd (pthread_create 0x1000 0 successor 7 (boot [0x10, 0] 0x2000))) = [Running]"
  by (simp add: pthread_create_def at_CreateThread_def native_defs boot_def new_calls_def
      calls_by_def INFINITE_def upt_rec await_numeral Let_def)

subsection \<open>C5: the result of lock\<close>

text \<open>
  C5: \<open>pthread_mutex_lock\<close> returns 0 exactly when its wait reports WAIT_OBJECT_0 and
  EINVAL for every other wait code; it returns only if the wait does; and the caller
  makes one call, the wait, so nothing is retried. (The wait is on the pointer the caller
  passed, as the header writes it.)
\<close>

theorem pthread_mutex_lock_follows_wait:
  "(fst (pthread_mutex_lock mutex s) = Returns 0 \<longleftrightarrow>
      fst (WaitForSingleObject mutex INFINITE s) = Some WAIT_OBJECT_0) \<and>
   (\<forall>w. fst (WaitForSingleObject mutex INFINITE s) = Some w \<and> w \<noteq> WAIT_OBJECT_0 \<longrightarrow>
      fst (pthread_mutex_lock mutex s) = Returns EINVAL) \<and>
   (fst (pthread_mutex_lock mutex s) = Blocks \<longleftrightarrow>
      fst (WaitForSingleObject mutex INFINITE s) = None) \<and>
   new_calls s (snd (pthread_mutex_lock mutex s)) = [CallWaitForSingleObject mutex INFINITE]"
proof -
  have "snd (pthread_mutex_lock mutex s) = snd (WaitForSingleObject mutex INFINITE s)"
    by (simp add: pthread_mutex_lock_def split: prod.splits option.splits)
  then have "new_calls s (snd (pthread_mutex_lock mutex s)) = [CallWaitForSingleObject mutex INFINITE]"
    using waited_new_calls [OF WaitForSingleObject_waited [of mutex INFINITE s]] by simp
  then show ?thesis
    by (auto simp: pthread_mutex_lock_def EINVAL_def split: prod.splits option.splits)
qed

theorem pthread_mutex_lock_follows_wait_witness:
  "fst (WaitForSingleObject 0x1000 INFINITE initialised) = Some WAIT_FAILED \<and>
   WAIT_FAILED \<noteq> WAIT_OBJECT_0 \<and>
   fst (pthread_mutex_lock 0x1000 initialised) = Returns EINVAL \<and>
   new_calls initialised (snd (pthread_mutex_lock 0x1000 initialised)) =
     [CallWaitForSingleObject 0x1000 INFINITE]"
proof -
  have w: "fst (WaitForSingleObject 0x1000 INFINITE initialised) = Some WAIT_FAILED"
    by (simp add: initialised_def pthread_mutex_init_def native_defs boot_def)
  have d: "WAIT_FAILED \<noteq> WAIT_OBJECT_0"
    by (simp add: WAIT_FAILED_def WAIT_OBJECT_0_def)
  show ?thesis
    using w d pthread_mutex_lock_follows_wait [of "0x1000" initialised] by blast
qed

subsection \<open>C6: the result of init\<close>

text \<open>
  C6: \<open>pthread_mutex_init\<close> returns ENOMEM when CreateMutexA returns NULL, and then the
  caller's cell holds NULL and no object was added to the handle table; it returns 0
  otherwise, with the handle of a new, free mutex in the cell.
\<close>

theorem pthread_mutex_init_result:
  "fst (pthread_mutex_init mutex attr s) = (if fst (CreateMutexA False s) = 0 then ENOMEM else 0) \<and>
   ENOMEM \<noteq> 0 \<and>
   mem (snd (pthread_mutex_init mutex attr s)) mutex = fst (CreateMutexA False s) \<and>
   objects (snd (pthread_mutex_init mutex attr s)) =
     (if fst (CreateMutexA False s) = 0 then objects s
      else (objects s)(fst (CreateMutexA False s) \<mapsto> Mutex None))"
  using alloc_handle_fail [of "Mutex None" "trace (CallCreateMutexA False) s"]
    alloc_handle_ok [of "Mutex None" "trace (CallCreateMutexA False) s"]
  by (cases "alloc_handle (Mutex None) (trace (CallCreateMutexA False) s)")
     (auto simp: pthread_mutex_init_def CreateMutexA_def ENOMEM_def trace_def)

theorem pthread_mutex_init_result_witness:
  "fst (CreateMutexA False (boot [] (0x2000 :: 64 word))) = 0 \<and>
   fst (pthread_mutex_init 0x1000 0 (boot [] (0x2000 :: 64 word))) = ENOMEM \<and>
   mem (snd (pthread_mutex_init 0x1000 0 (boot [] (0x2000 :: 64 word)))) 0x1000 = 0 \<and>
   fst (CreateMutexA False (boot [0x10] (0x2000 :: 64 word))) = 0x10 \<and>
   fst (pthread_mutex_init 0x1000 0 (boot [0x10] (0x2000 :: 64 word))) = 0 \<and>
   mem (snd (pthread_mutex_init 0x1000 0 (boot [0x10] (0x2000 :: 64 word)))) 0x1000 = 0x10"
  using pthread_mutex_init_result [of "0x1000" 0 "boot [] (0x2000 :: 64 word)"]
    pthread_mutex_init_result [of "0x1000" 0 "boot [0x10] (0x2000 :: 64 word)"]
  by (simp add: CreateMutexA_def alloc_handle_def trace_def boot_def CURRENT_THREAD_def)

subsection \<open>C7: unlock and destroy always report success\<close>

text \<open>
  C7: \<open>pthread_mutex_unlock\<close> and \<open>pthread_mutex_destroy\<close> return 0 in every state and
  for every argument, and do nothing but the native call, whose result they drop.
\<close>

theorem pthread_mutex_unlock_destroy_report_success:
  "fst (pthread_mutex_unlock mutex s) = 0 \<and>
   snd (pthread_mutex_unlock mutex s) = snd (ReleaseMutex mutex s) \<and>
   fst (pthread_mutex_destroy mutex s) = 0 \<and>
   snd (pthread_mutex_destroy mutex s) = snd (CloseHandle mutex s)"
  by (simp add: pthread_mutex_unlock_def pthread_mutex_destroy_def split: prod.splits)

theorem pthread_mutex_unlock_destroy_report_success_witness:
  "fst (ReleaseMutex 0x1000 (boot [] (0x2000 :: 64 word))) = False \<and>
   fst (pthread_mutex_unlock 0x1000 (boot [] (0x2000 :: 64 word))) = 0 \<and>
   fst (CloseHandle 0x1000 (boot [] (0x2000 :: 64 word))) = False \<and>
   fst (pthread_mutex_destroy 0x1000 (boot [] (0x2000 :: 64 word))) = 0"
  using pthread_mutex_unlock_destroy_report_success [of "0x1000" "boot [] (0x2000 :: 64 word)"]
  by (simp add: ReleaseMutex_def CloseHandle_def trace_def boot_def)

subsection \<open>C8: equality of handles\<close>

text \<open>
  C8: \<open>pthread_equal\<close> is a function of the two handle values alone (it takes and returns
  no state); it is reflexive and symmetric, and non-zero exactly for equal values.
\<close>

theorem pthread_equal_reflexive_symmetric:
  "pthread_equal (h :: 'a) h = 1 \<and> pthread_equal a b = pthread_equal b (a :: 'a) \<and>
   (pthread_equal a b \<noteq> 0 \<longleftrightarrow> a = b)"
  by (simp add: pthread_equal_def)

theorem pthread_equal_reflexive_symmetric_witness:
  "pthread_equal (0x14 :: 64 word) 0x14 = 1 \<and>
   pthread_equal (0x14 :: 64 word) 0x10 = pthread_equal 0x10 (0x14 :: 64 word) \<and>
   pthread_equal (0x14 :: 64 word) 0x10 = 0"
  using pthread_equal_reflexive_symmetric [of "0x14 :: 64 word" "0x14" "0x10"]
  by simp

subsection \<open>C9: the out-parameter of create\<close>

text \<open>
  C9: whatever \<open>pthread_create\<close> does afterwards (return 0, return ENOMEM or block in
  the wait), the caller's cell holds the result of the CreateThread call; it holds NULL
  when that call failed.
\<close>

theorem pthread_create_stores_native_result:
  "mem (snd (pthread_create thread attr routine a s)) thread =
     fst (CreateThread (sp s) (at_CreateThread routine a s)) \<and>
   (fst (CreateThread (sp s) (at_CreateThread routine a s)) = 0 \<longrightarrow>
      mem (snd (pthread_create thread attr routine a s)) thread = 0)"
proof -
  let ?s2 = "at_CreateThread routine a s"
  let ?h = "fst (CreateThread (sp s) ?s2)"
  let ?s4 = "(snd (CreateThread (sp s) ?s2))\<lparr>mem := (mem ?s2)(thread := ?h)\<rparr>"
  let ?ev = "fst (CreateEventA False False s)"
  obtain w s5 where W: "WaitForSingleObject ?ev INFINITE ?s4 = (w, s5)"
    by (cases "WaitForSingleObject ?ev INFINITE ?s4")
  have m5: "mem s5 = mem ?s4" using Wait_fields(2) [of ?ev INFINITE ?s4] W by simp
  have "mem (snd (pthread_create thread attr routine a s)) thread = ?h"
    using W m5 by (cases w) (simp_all add: pthread_create_unfold Let_def CloseHandle_fields)
  then show ?thesis by simp
qed

theorem pthread_create_stores_native_result_witness:
  "mem stale_cell 0x1000 = 0xDEAD \<and>
   fst (CreateThread (sp stale_cell) (at_CreateThread successor 7 stale_cell)) = 0 \<and>
   mem (snd (pthread_create 0x1000 0 successor 7 stale_cell)) 0x1000 = 0"
proof -
  have "fst (CreateThread (sp stale_cell) (at_CreateThread successor 7 stale_cell)) = 0"
    by (simp add: stale_cell_def at_CreateThread_def native_defs boot_def)
  then show ?thesis
    using pthread_create_stores_native_result [of "0x1000" 0 successor 7 stale_cell]
    by (simp add: stale_cell_def)
qed

subsection \<open>C10: join with a null result pointer\<close>

text \<open>
  C10 says that every \<open>pthread_join\<close> with a null result pointer waits, closes the
  handle and returns 0. The check for the caller's own handle comes first: with the
  handle of \<open>pthread_self\<close> and a null result pointer, join returns EDEADLK and has
  neither waited nor closed anything.
\<close>

theorem pthread_join_null_retval_self_counterexample:
  "fst (pthread_join (fst (pthread_self self_joiner)) 0 self_joiner) = Returns EDEADLK \<and>
   EDEADLK \<noteq> 0 \<and>
   new_calls self_joiner (snd (pthread_join (fst (pthread_self self_joiner)) 0 self_joiner)) =
     [CallGetCurrentThread]"
  by (simp add: pthread_join_def pthread_self_def GetCurrentThread_def trace_def new_calls_def
      calls_by_def EDEADLK_def)

text \<open>
  C10, as amended. For a handle other than the one \<open>pthread_self\<close> returns and a null
  result pointer, \<open>pthread_join\<close> blocks exactly when its wait never returns; otherwise
  it returns 0, the caller's calls are GetCurrentThread, the wait on the handle with
  INFINITE and CloseHandle (no GetExitCodeThread), the handle is closed, and the thread
  behind a thread handle has ended. Memory is left as it was.
\<close>

theorem pthread_join_null_retval:
  assumes "thread \<noteq> fst (pthread_self s)"
  shows "(fst (pthread_join thread 0 s) = Blocks \<longleftrightarrow>
            fst (WaitForSingleObject thread INFINITE (snd (GetCurrentThread s))) = None) \<and>
         (fst (pthread_join thread 0 s) \<noteq> Blocks \<longrightarrow>
            fst (pthread_join thread 0 s) = Returns 0 \<and>
            new_calls s (snd (pthread_join thread 0 s)) =
              [CallGetCurrentThread, CallWaitForSingleObject thread INFINITE,
               CallCloseHandle thread] \<and>
            objects (snd (pthread_join thread 0 s)) thread = None \<and>
            (\<forall>t. objects s thread = Some (Thread t) \<longrightarrow>
               (\<exists>c. thread_state (snd (pthread_join thread 0 s)) t = Exited c))) \<and>
         mem (snd (pthread_join thread 0 s)) = mem s"
proof -
  let ?s1 = "trace CallGetCurrentThread s"
  obtain w s2 where W: "WaitForSingleObject thread INFINITE ?s1 = (w, s2)"
    by (cases "WaitForSingleObject thread INFINITE ?s1")
  have wt: "waited thread INFINITE ?s1 s2"
    using WaitForSingleObject_waited [of thread INFINITE ?s1] W by simp
  have ne: "thread \<noteq> CURRENT_THREAD"
    using assms by (simp add: pthread_self_def GetCurrentThread_def)
  have m2: "mem s2 = mem s" using wt by (simp add: waited_def trace_def)
  show ?thesis
  proof (cases w)
    case None
    then show ?thesis using W ne m2
      by (simp add: pthread_join_def GetCurrentThread_def)
  next
    case (Some r)
    have j: "pthread_join thread 0 s = (Returns 0, snd (CloseHandle thread s2))"
      using W ne Some by (simp add: pthread_join_def GetCurrentThread_def split: prod.splits)
    have c: "new_calls s (snd (CloseHandle thread s2)) =
              [CallGetCurrentThread, CallWaitForSingleObject thread INFINITE, CallCloseHandle thread]"
      by (rule waited_CloseHandle_calls [OF wt])
    have x: "\<forall>t. objects s thread = Some (Thread t) \<longrightarrow>
               (\<exists>c. thread_state (snd (CloseHandle thread s2)) t = Exited c)"
    proof (intro allI impI)
      fix t assume "objects s thread = Some (Thread t)"
      then have "objects ?s1 thread = Some (Thread t)" by (simp add: trace_def)
      then have "\<exists>c. thread_state s2 t = Exited c"
        using WaitForSingleObject_thread_exited [of thread ?s1 r s2 t] W Some ne
        by simp
      then show "\<exists>c. thread_state (snd (CloseHandle thread s2)) t = Exited c"
        by (auto simp: CloseHandle_fields thread_state_def split: if_splits)
    qed
    show ?thesis using j c x m2 W Some
      by (simp add: GetCurrentThread_def CloseHandle_fields)
  qed
qed

theorem pthread_join_null_retval_witness:
  "mem spawned 0x1000 \<noteq> fst (pthread_self spawned) \<and>
   fst (pthread_join (mem spawned 0x1000) 0 spawned) = Returns 0 \<and>
   new_calls spawned (snd (pthread_join (mem spawned 0x1000) 0 spawned)) =
     [CallGetCurrentThread, CallWaitForSingleObject (mem spawned 0x1000) INFINITE,
      CallCloseHandle (mem spawned 0x1000)] \<and>
   mem (snd (pthread_join (mem spawned 0x1000) 0 spawned)) = mem spawned"
proof -
  have a: "mem spawned 0x1000 \<noteq> fst (pthread_self spawned)"
    by (simp add: spawned_def pthread_create_def pthread_self_def native_defs boot_def upt_rec
        Let_def await_numeral)
  have b: "fst (pthread_join (mem spawned 0x1000) 0 spawned) \<noteq> Blocks"
    by (simp add: spawned_def pthread_create_def pthread_join_def native_defs boot_def upt_rec
        Let_def await_numeral)
  show ?thesis
    using a b pthread_join_null_retval [OF a] by simp
qed

end
